theory Spec2Isabelle
  imports Main
begin

section \<open>Python string primitives\<close>

text \<open>
  The program is Python; its texts are \<open>str\<close> values. They are modelled as
  \<open>string\<close> (lists of \<open>char\<close>), a \<open>char\<close> standing for the code point with
  the same number (0 to 255). On these code points \<open>str.lower\<close> moves \<open>A\<close> to \<open>Z\<close>
  and the capital letters 192 to 222 (215, the multiplication sign, apart) up by 32, and
  \<open>str.split()\<close> and \<open>str.strip()\<close> treat 9 to 13, 28 to 32, 133 and 160 as
  white space.
\<close>

definition lower_char :: "char \<Rightarrow> char" where
  "lower_char c = (let n = (of_char c :: nat) in
     if (65 \<le> n \<and> n \<le> 90) \<or> (192 \<le> n \<and> n \<le> 222 \<and> n \<noteq> 215)
     then char_of (n + 32) else c)"

definition lower :: "string \<Rightarrow> string" where
  "lower s = map lower_char s"

definition is_space :: "char \<Rightarrow> bool" where
  "is_space c = (let n = (of_char c :: nat) in
     (9 \<le> n \<and> n \<le> 13) \<or> (28 \<le> n \<and> n \<le> 32) \<or> n = 133 \<or> n = 160)"

text \<open>\<open>s.strip(chars)\<close> and \<open>s.strip()\<close>: drop the characters of the set at both ends.\<close>

definition strip_chars :: "char list \<Rightarrow> string \<Rightarrow> string" where
  "strip_chars cs s =
     rev (dropWhile (\<lambda>c. c \<in> set cs) (rev (dropWhile (\<lambda>c. c \<in> set cs) s)))"

definition strip :: "string \<Rightarrow> string" where
  "strip s = rev (dropWhile is_space (rev (dropWhile is_space s)))"

text \<open>The punctuation set of \<open>strip(".,?!\"'")\<close>: full stop, comma, question mark,
  exclamation mark, double quote (34) and single quote (39).\<close>

definition punct :: "char list" where
  "punct = [CHR ''.'', CHR '','', CHR ''?'', CHR ''!'', CHR 0x22, CHR 0x27]"

text \<open>\<open>s.split()\<close>: the maximal runs of characters that are not white space, in order.
  The first argument is the run being read.\<close>

fun split_acc :: "string \<Rightarrow> string \<Rightarrow> string list" where
  "split_acc cur [] = (if cur = [] then [] else [cur])"
| "split_acc cur (c # cs) =
     (if is_space c then (if cur = [] then split_acc [] cs else cur # split_acc [] cs)
      else split_acc (cur @ [c]) cs)"

definition split :: "string \<Rightarrow> string list" where
  "split s = split_acc [] s"

text \<open>\<open>sep.join(xs)\<close>.\<close>

fun join :: "string \<Rightarrow> string list \<Rightarrow> string" where
  "join sep [] = []"
| "join sep [x] = x"
| "join sep (x # y # ys) = x @ sep @ join sep (y # ys)"

text \<open>\<open>s.startswith(p)\<close>, \<open>s.endswith(e)\<close> and \<open>sub in s\<close>.\<close>

fun startswith :: "string \<Rightarrow> string \<Rightarrow> bool" where
  "startswith s [] = True"
| "startswith [] (p # ps) = False"
| "startswith (c # cs) (p # ps) = (c = p \<and> startswith cs ps)"

definition endswith :: "string \<Rightarrow> string \<Rightarrow> bool" where
  "endswith s e = startswith (rev s) (rev e)"

fun contains :: "string \<Rightarrow> string \<Rightarrow> bool" where
  "contains [] sub = (sub = [])"
| "contains (c # cs) sub = (startswith (c # cs) sub \<or> contains cs sub)"

text \<open>\<open>s.replace(old, new)\<close>: every occurrence of \<open>old\<close>, found from the left and
  not overlapping an earlier one, becomes \<open>new\<close>. For the empty \<open>old\<close> Python puts
  \<open>new\<close> before every character and at the end.\<close>

function replace :: "string \<Rightarrow> string \<Rightarrow> string \<Rightarrow> string" where
  "replace [] old new = (if old = [] then new else [])"
| "replace (c # cs) old new =
     (if old = [] then new @ c # replace cs old new
      else if startswith (c # cs) old then new @ replace (drop (length old) (c # cs)) old new
      else c # replace cs old new)"
  by pat_completeness auto
termination
  by (relation "measure (\<lambda>(s, old, new). length s)") auto

text \<open>\<open>s[:-n]\<close> for \<open>n = len(ending)\<close>. Python reads \<open>-0\<close> as \<open>0\<close>, so \<open>s[:-0]\<close>
  is \<open>s[:0]\<close>, the empty string; for \<open>0 < n\<close> the slice drops the last \<open>n\<close>
  characters.\<close>

definition slice_to_neg :: "string \<Rightarrow> nat \<Rightarrow> string" where
  "slice_to_neg s n = (if n = 0 then [] else take (length s - n) s)"

section \<open>Dictionaries\<close>

text \<open>
  A Python \<open>dict\<close> of strings keeps its entries in insertion order and its keys are
  distinct; the program walks it in that order. It is an association list:
  \<open>k in d\<close> and \<open>d[k]\<close> are \<open>map_of d k\<close>, \<open>d.items()\<close> is the list itself.
  \<open>d[k] = v\<close> overwrites the value of a key in place and puts a new key at the end.
\<close>

type_synonym dict = "(string \<times> string) list"

fun dict_set :: "(string \<times> 'v) list \<Rightarrow> string \<Rightarrow> 'v \<Rightarrow> (string \<times> 'v) list" where
  "dict_set [] k v = [(k, v)]"
| "dict_set ((k', v') # d) k v =
     (if k' = k then (k', v) # d else (k', v') # dict_set d k v)"

section \<open>The chatbot (\<open>src/chatbot.py\<close>)\<close>

text \<open>
  \<open>self.data["grammar"]\<close> with the four categories that \<open>translate_word\<close> reads, as
  \<open>default_grammar_rules\<close> builds it.
\<close>

record grammar =
  verb_endings :: dict
  postpositions :: dict
  pronouns :: dict
  question_words :: dict

text \<open>The part of \<open>self.conversation_context\<close> that the operations below read or write.\<close>

record conversation =
  current_topic :: "string option"
  user_name :: "string option"
  language_preference :: string

record chatbot =
  vocab :: dict
  phrases :: dict
  grammar :: grammar
  conversation_context :: conversation

definition default_grammar_rules :: grammar where
  "default_grammar_rules = \<lparr>
     verb_endings = [(''na'', ''no''), (''ta'', ''to''), (''te'', ''ta''), (''ti'', ''ti''),
       (''ya'', ''yo''), (''a'', ''o''), (''e'', ''a''), (''i'', ''i''), (''o'', ''o''),
       (''u'', ''u'')],
     postpositions = [(''ka'', ''ko''), (''ke'', ''ka''), (''ki'', ''ki''), (''ko'', ''ku''),
       (''se'', ''le''), (''me'', ''ma''), (''par'', ''par''), (''tak'', ''tak'')],
     pronouns = [(''main'', ''ma''), (''mujhe'', ''mik''), (''mera'', ''mero''),
       (''meri'', ''meri''), (''hum'', ''hami''), (''hamara'', ''hamro''), (''tu'', ''tu''),
       (''tum'', ''tum''), (''tumhara'', ''tumro''), (''aap'', ''tum''), (''aapka'', ''tumar''),
       (''woh'', ''u''), (''uska'', ''usko''), (''uski'', ''uski''), (''ye'', ''yo''),
       (''iska'', ''isko''), (''iski'', ''iski'')],
     question_words = [(''kya'', ''ke''), (''kaun'', ''ko''), (''kahan'', ''kakh''),
       (''kaise'', ''kas''), (''kyun'', ''kya''), (''kitna'', ''kati''), (''kitne'', ''kati''),
       (''kitni'', ''kati''), (''kab'', ''kab'')] \<rparr>"

subsection \<open>\<open>translate_word\<close>\<close>

text \<open>The loop over \<open>verb_endings.items()\<close>: the first entry whose ending is a proper
  suffix of the word decides.\<close>

fun apply_verb_endings :: "dict \<Rightarrow> string \<Rightarrow> string option" where
  "apply_verb_endings [] w = None"
| "apply_verb_endings ((ending, replacement) # d) w =
     (if endswith w ending \<and> length w > length ending
      then Some (slice_to_neg w (length ending) @ replacement)
      else apply_verb_endings d w)"

text \<open>Each loop \<open>for hinglish, kumaoni in d.items(): if kumaoni.lower() == word_lower\<close>.\<close>

fun reverse_lookup :: "dict \<Rightarrow> string \<Rightarrow> string option" where
  "reverse_lookup [] w = None"
| "reverse_lookup ((hinglish, kumaoni) # d) w =
     (if lower kumaoni = w then Some hinglish else reverse_lookup d w)"

definition translate_word :: "chatbot \<Rightarrow> string \<Rightarrow> string \<Rightarrow> string" where
  "translate_word self word direction =
     (let word_lower = strip_chars punct (lower word) in
      if direction = ''hinglish_to_kumaoni'' then
        (case map_of (pronouns (grammar self)) word_lower of Some v \<Rightarrow> v | None \<Rightarrow>
        (case map_of (question_words (grammar self)) word_lower of Some v \<Rightarrow> v | None \<Rightarrow>
        (case map_of (postpositions (grammar self)) word_lower of Some v \<Rightarrow> v | None \<Rightarrow>
        (case map_of (vocab self) word_lower of Some v \<Rightarrow> v | None \<Rightarrow>
        (case apply_verb_endings (verb_endings (grammar self)) word_lower of Some v \<Rightarrow> v
         | None \<Rightarrow> word)))))
      else
        (case reverse_lookup (vocab self) word_lower of Some h \<Rightarrow> h | None \<Rightarrow>
        (case reverse_lookup (pronouns (grammar self)) word_lower of Some h \<Rightarrow> h | None \<Rightarrow>
        (case reverse_lookup (question_words (grammar self)) word_lower of Some h \<Rightarrow> h
         | None \<Rightarrow>
        (case reverse_lookup (postpositions (grammar self)) word_lower of Some h \<Rightarrow> h
         | None \<Rightarrow> word)))))"

subsection \<open>\<open>translate\<close>\<close>

text \<open>One turn of each phrase loop: the text is tested and rewritten in lower case.\<close>

definition phrase_step :: "string \<Rightarrow> string \<times> string \<Rightarrow> string" where
  "phrase_step text e =
     (if contains (lower text) (lower (fst e))
      then replace (lower text) (lower (fst e)) (snd e) else text)"

definition phrase_step_rev :: "string \<Rightarrow> string \<times> string \<Rightarrow> string" where
  "phrase_step_rev text e =
     (if contains (lower text) (lower (snd e))
      then replace (lower text) (lower (snd e)) (fst e) else text)"

definition phrase_pass :: "dict \<Rightarrow> string \<Rightarrow> string \<Rightarrow> string" where
  "phrase_pass ps text direction =
     (if direction = ''hinglish_to_kumaoni'' then foldl phrase_step text ps
      else foldl phrase_step_rev text ps)"

definition translate :: "chatbot \<Rightarrow> string \<Rightarrow> string \<Rightarrow> string" where
  "translate self text direction =
     join '' '' (map (\<lambda>word. translate_word self word direction)
       (split (phrase_pass (phrases self) text direction)))"

subsection \<open>\<open>set_language_preference\<close>\<close>

text \<open>The method returns its message; the chatbot after the call is the second component.\<close>

definition set_language_preference :: "chatbot \<Rightarrow> string \<Rightarrow> string \<times> chatbot" where
  "set_language_preference self preference =
     (if preference \<in> set [''kumaoni'', ''hinglish'', ''mixed'']
      then (''Language preference set to '' @ preference,
            self\<lparr>conversation_context :=
              (conversation_context self)\<lparr>language_preference := preference\<rparr>\<rparr>)
      else (''Invalid language preference. Use 'kumaoni', 'hinglish', or 'mixed'.'', self))"

subsection \<open>\<open>detect_language\<close>\<close>

text \<open>The loop over the words, on the pair of counters
  \<open>(hinglish_count, kumaoni_count)\<close>.\<close>

fun count_words :: "dict \<Rightarrow> string list \<Rightarrow> nat \<times> nat \<Rightarrow> nat \<times> nat" where
  "count_words v [] hk = hk"
| "count_words v (word # ws) (h, k) =
     (let w = strip_chars punct word in
      if map_of v w \<noteq> None then count_words v ws (h + 1, k)
      else if w \<in> set (map snd v) then count_words v ws (h, k + 1)
      else count_words v ws (h, k))"

text \<open>The loop over the phrase keys and the loop over the phrase values: keys vote
  Hinglish, values vote Kumaoni.\<close>

fun count_phrase_keys :: "dict \<Rightarrow> string \<Rightarrow> nat \<Rightarrow> nat" where
  "count_phrase_keys [] text h = h"
| "count_phrase_keys ((phrase, t) # ps) text h =
     (if contains (lower text) phrase then count_phrase_keys ps text (h + 3)
      else count_phrase_keys ps text h)"

fun count_phrase_values :: "dict \<Rightarrow> string \<Rightarrow> nat \<Rightarrow> nat" where
  "count_phrase_values [] text k = k"
| "count_phrase_values ((p, kumaoni_phrase) # ps) text k =
     (if contains (lower text) kumaoni_phrase then count_phrase_values ps text (k + 3)
      else count_phrase_values ps text k)"

definition detect_counts :: "chatbot \<Rightarrow> string \<Rightarrow> nat \<times> nat" where
  "detect_counts self text =
     (let hk = count_words (vocab self) (split (lower text)) (0, 0) in
      (count_phrase_keys (phrases self) text (fst hk),
       count_phrase_values (phrases self) text (snd hk)))"

definition detect_language :: "chatbot \<Rightarrow> string \<Rightarrow> string" where
  "detect_language self text =
     (let hk = detect_counts self text in
      if snd hk > fst hk then ''kumaoni'' else ''hinglish'')"

section \<open>The training module (\<open>src/training_module.py\<close>)\<close>

text \<open>
  \<open>self.data["vocab"]\<close>, \<open>self.data["corrections"]["words"]\<close> and
  \<open>self.session_log["entries"]\<close>. Writing the JSON files is outside the model, and
  the two readings of the clock in \<open>add_word\<close> are arguments.
\<close>

record correction =
  old :: string
  new :: string
  timestamp :: string

record log_entry =
  entry_type :: string
  entry_hinglish :: string
  entry_kumaoni :: string
  entry_timestamp :: string

record training_module =
  tm_vocab :: dict
  tm_corrections_words :: "(string \<times> correction list) list"
  tm_session_entries :: "log_entry list"

text \<open>\<open>if hinglish not in c: c[hinglish] = []\<close>, then \<open>c[hinglish].append(r)\<close>.\<close>

definition corrections_append ::
  "(string \<times> correction list) list \<Rightarrow> string \<Rightarrow> correction \<Rightarrow> (string \<times> correction list) list"
where
  "corrections_append c hinglish r =
     (let c' = (if map_of c hinglish = None then dict_set c hinglish [] else c) in
      map (\<lambda>(k, rs). if k = hinglish then (k, rs @ [r]) else (k, rs)) c')"

text \<open>The tail of \<open>add_word\<close>: the vocabulary entry is written and the addition logged.\<close>

definition write_word :: "training_module \<Rightarrow> string \<Rightarrow> string \<Rightarrow> string \<Rightarrow> training_module" where
  "write_word self hinglish kumaoni now =
     self\<lparr>tm_vocab := dict_set (tm_vocab self) hinglish kumaoni,
          tm_session_entries := tm_session_entries self @
            [\<lparr>entry_type = ''word'', entry_hinglish = hinglish, entry_kumaoni = kumaoni,
              entry_timestamp = now\<rparr>]\<rparr>"

definition add_word ::
  "training_module \<Rightarrow> string \<Rightarrow> string \<Rightarrow> string \<Rightarrow> string \<Rightarrow> bool \<times> training_module"
where
  "add_word self hinglish0 kumaoni0 now1 now2 =
     (let hinglish = strip (lower hinglish0); kumaoni = strip kumaoni0 in
      case map_of (tm_vocab self) hinglish of
        Some existing \<Rightarrow>
          if existing = kumaoni then (False, self)
          else (True,
            write_word
              (self\<lparr>tm_corrections_words :=
                 corrections_append (tm_corrections_words self) hinglish
                   \<lparr>old = existing, new = kumaoni, timestamp = now1\<rparr>\<rparr>)
              hinglish kumaoni now2)
      | None \<Rightarrow> (True, write_word self hinglish kumaoni now2))"

section \<open>The pattern recogniser (\<open>src/pattern_recognizer.py\<close>)\<close>

text \<open>A corpus item is the pair of its \<open>hinglish\<close> and its \<open>kumaoni\<close> sentence.\<close>

type_synonym example = "string \<times> string"

text \<open>The phrases of \<open>n\<close> words of a sentence: \<open>" ".join(kumaoni_words[i:i+n])\<close> for
  \<open>i\<close> in \<open>range(len(kumaoni_words) - n + 1)\<close>, when the sentence has \<open>n\<close> words.\<close>

definition ngrams :: "string list \<Rightarrow> nat \<Rightarrow> string list" where
  "ngrams ws n =
     (if length ws \<ge> n
      then map (\<lambda>i. join '' '' (take n (drop i ws))) [0..<length ws - n + 1] else [])"

text \<open>\<open>for n in range(2, 5)\<close>: the phrases of an item in the order the loop meets them.\<close>

definition item_phrases :: "example \<Rightarrow> string list" where
  "item_phrases item = concat (map (ngrams (split (snd item))) [2..<5])"

text \<open>\<open>kumaoni_phrases[phrase].append(hinglish)\<close> on a \<open>defaultdict(list)\<close>.\<close>

fun dd_append :: "(string \<times> string list) list \<Rightarrow> string \<Rightarrow> string \<Rightarrow> (string \<times> string list) list" where
  "dd_append [] phrase h = [(phrase, [h])]"
| "dd_append ((q, hs) # d) phrase h =
     (if q = phrase then (q, hs @ [h]) # d else (q, hs) # dd_append d phrase h)"

text \<open>The list a \<open>defaultdict(list)\<close> holds for a key: empty for a key never written.\<close>

definition lookup_list :: "(string \<times> 'a list) list \<Rightarrow> string \<Rightarrow> 'a list" where
  "lookup_list d p = (case map_of d p of None \<Rightarrow> [] | Some hs \<Rightarrow> hs)"

definition collect_item :: "(string \<times> string list) list \<Rightarrow> example \<Rightarrow> (string \<times> string list) list" where
  "collect_item d item = foldl (\<lambda>d phrase. dd_append d phrase (fst item)) d (item_phrases item)"

definition collect_phrases :: "example list \<Rightarrow> (string \<times> string list) list" where
  "collect_phrases dataset = foldl collect_item [] dataset"

text \<open>\<open>Counter(translations)\<close> counts in the order of first appearance, and
  \<open>most_common(1)[0]\<close> is the first entry of greatest count (\<open>max\<close> keeps the earlier of
  two equal ones). On an empty counter the index raises; that is \<open>None\<close>.\<close>

fun counter_add :: "(string \<times> nat) list \<Rightarrow> string \<Rightarrow> (string \<times> nat) list" where
  "counter_add [] t = [(t, 1)]"
| "counter_add ((t', n) # c) t =
     (if t' = t then (t', n + 1) # c else (t', n) # counter_add c t)"

definition Counter :: "string list \<Rightarrow> (string \<times> nat) list" where
  "Counter ts = foldl counter_add [] ts"

fun max_by_count :: "string \<times> nat \<Rightarrow> (string \<times> nat) list \<Rightarrow> string \<times> nat" where
  "max_by_count best [] = best"
| "max_by_count best (x # xs) =
     (if snd x > snd best then max_by_count x xs else max_by_count best xs)"

definition most_common1 :: "(string \<times> nat) list \<Rightarrow> (string \<times> nat) option" where
  "most_common1 c = (case c of [] \<Rightarrow> None | x # xs \<Rightarrow> Some (max_by_count x xs))"

text \<open>
  One turn of the filtering loop. The test \<open>most_common[1] / len(translations) >= 0.7\<close>
  divides two integers in floating point; it is written here as the comparison of integers
  \<open>7 * len(translations) \<le> 10 * most_common[1]\<close>, which gives the same answer for every
  list of fewer than \<open>10^15\<close> translations.
\<close>

definition select_idiom :: "dict \<Rightarrow> string \<times> string list \<Rightarrow> dict" where
  "select_idiom idioms e =
     (if length (snd e) \<ge> 3 then
        (case most_common1 (Counter (snd e)) of
           None \<Rightarrow> idioms
         | Some most_common \<Rightarrow>
             if 7 * length (snd e) \<le> 10 * snd most_common
             then dict_set idioms (fst e) (fst most_common) else idioms)
      else idioms)"

text \<open>What a turn of the loop stores for a phrase with the translations \<open>ts\<close>, if
  anything.\<close>

definition idiom_of :: "string list \<Rightarrow> string option" where
  "idiom_of ts =
     (if length ts \<ge> 3 then
        (case most_common1 (Counter ts) of
           None \<Rightarrow> None
         | Some most_common \<Rightarrow>
             if 7 * length ts \<le> 10 * snd most_common then Some (fst most_common) else None)
      else None)"

definition extract_idioms :: "example list \<Rightarrow> dict" where
  "extract_idioms dataset = foldl select_idiom [] (collect_phrases dataset)"

section \<open>Notions of the specification\<close>

text \<open>The places where a phrase stands in a sentence, given by its words \<open>ws\<close>: the
  pairs \<open>(n, i)\<close> with \<open>n\<close> one of 2, 3 and 4 such that the \<open>n\<close> words from position
  \<open>i\<close> on, joined by single spaces, are the phrase.\<close>

definition places :: "string list \<Rightarrow> string \<Rightarrow> (nat \<times> nat) list" where
  "places ws p =
     filter (\<lambda>(n, i). i + n \<le> length ws \<and> join '' '' (take n (drop i ws)) = p)
       (List.product [2, 3, 4] [0..<length ws])"

text \<open>How often a phrase occurs across the corpus: the number of its places in the
  Kumaoni sentences.\<close>

definition occurrences :: "example list \<Rightarrow> string \<Rightarrow> nat" where
  "occurrences dataset p = (\<Sum>item\<leftarrow>dataset. length (places (split (snd item)) p))"

text \<open>The Hinglish sentences aligned with a phrase: the Hinglish sentence of an item once
  for every place of the phrase in the item's Kumaoni sentence, in the order of the
  corpus.\<close>

definition aligned :: "example list \<Rightarrow> string \<Rightarrow> string list" where
  "aligned dataset p =
     concat (map (\<lambda>item. map (\<lambda>place. fst item) (places (split (snd item)) p)) dataset)"

text \<open>The tokens that \<open>detect_language\<close> looks up: the words of the lowercased text,
  without the punctuation at their ends.\<close>

definition tokens :: "string \<Rightarrow> string list" where
  "tokens text = map (strip_chars punct) (split (lower text))"

text \<open>The Hinglish votes: one for every token that is a vocabulary key, three for every
  phrase whose key stands in the lowercased text.\<close>

definition hinglish_votes :: "chatbot \<Rightarrow> string \<Rightarrow> nat" where
  "hinglish_votes self text =
     length (filter (\<lambda>w. w \<in> set (map fst (vocab self))) (tokens text)) +
     3 * length (filter (\<lambda>p. contains (lower text) p) (map fst (phrases self)))"

text \<open>The Kumaoni votes in the words of the specification: one for every token found
  among the vocabulary values, three for every phrase whose value stands in the lowercased
  text.\<close>

definition kumaoni_votes_claimed :: "chatbot \<Rightarrow> string \<Rightarrow> nat" where
  "kumaoni_votes_claimed self text =
     length (filter (\<lambda>w. w \<in> set (map snd (vocab self))) (tokens text)) +
     3 * length (filter (\<lambda>p. contains (lower text) p) (map snd (phrases self)))"

text \<open>The Kumaoni votes where a token that is a vocabulary key does not vote Kumaoni.\<close>

definition kumaoni_votes :: "chatbot \<Rightarrow> string \<Rightarrow> nat" where
  "kumaoni_votes self text =
     length (filter (\<lambda>w. w \<notin> set (map fst (vocab self)) \<and> w \<in> set (map snd (vocab self)))
       (tokens text)) +
     3 * length (filter (\<lambda>p. contains (lower text) p) (map snd (phrases self)))"

section \<open>Concrete stores\<close>

text \<open>A training module with nothing learnt, and the same after \<open>add_word("ghar", "ghar")\<close>.\<close>

definition empty_module :: training_module where
  "empty_module = \<lparr>tm_vocab = [], tm_corrections_words = [], tm_session_entries = []\<rparr>"

definition ghar_module :: training_module where
  "ghar_module = snd (add_word empty_module ''ghar'' ''ghar'' ''t1'' ''t2'')"

text \<open>The same after \<open>add_word("ghar", "gher")\<close>.\<close>

definition gher_module :: training_module where
  "gher_module = snd (add_word empty_module ''ghar'' ''gher'' ''t1'' ''t2'')"

text \<open>A chatbot whose vocabulary has a word that is the same in both languages.\<close>

definition ambiguous_bot :: chatbot where
  "ambiguous_bot = \<lparr>vocab = [(''ghar'', ''ghar''), (''paani'', ''pani'')],
     phrases = [(''kaise ho'', ''kas cha'')],
     grammar = default_grammar_rules,
     conversation_context =
       \<lparr>current_topic = None, user_name = None, language_preference = ''mixed''\<rparr>\<rparr>"

text \<open>A chatbot whose one vocabulary value ends in punctuation.\<close>

definition greeting_bot :: chatbot where
  "greeting_bot = \<lparr>vocab = [(''hello'', ''hi!'')], phrases = [],
     grammar = default_grammar_rules,
     conversation_context =
       \<lparr>current_topic = None, user_name = None, language_preference = ''mixed''\<rparr>\<rparr>"

text \<open>The pronoun and the verb ending of the specification's example, and a verb ending
  with the empty suffix, as \<open>add_grammar_rule("verb_endings", "", "x")\<close> stores it.\<close>

definition suffix_bot :: chatbot where
  "suffix_bot = \<lparr>vocab = [], phrases = [],
     grammar = \<lparr>verb_endings = [(''na'', ''no''), ('''', ''x'')], postpositions = [],
       pronouns = [(''main'', ''ma'')], question_words = []\<rparr>,
     conversation_context =
       \<lparr>current_topic = None, user_name = None, language_preference = ''mixed''\<rparr>\<rparr>"

text \<open>The built-in grammar rules with the phrase \<open>kaise ho\<close> registered.\<close>

definition kaise_bot :: chatbot where
  "kaise_bot = \<lparr>vocab = [], phrases = [(''kaise ho'', ''kas cha'')],
     grammar = default_grammar_rules,
     conversation_context =
       \<lparr>current_topic = None, user_name = None, language_preference = ''mixed''\<rparr>\<rparr>"

text \<open>The phrase \<open>kaise ho\<close> and the word rule for \<open>kaise\<close>, and nothing else.\<close>

definition kaise_only_bot :: chatbot where
  "kaise_only_bot = \<lparr>vocab = [], phrases = [(''kaise ho'', ''kas cha'')],
     grammar = \<lparr>verb_endings = [], postpositions = [], pronouns = [],
       question_words = [(''kaise'', ''kas'')]\<rparr>,
     conversation_context =
       \<lparr>current_topic = None, user_name = None, language_preference = ''mixed''\<rparr>\<rparr>"


text \<open>A corpus of longer sentences in which the four words \<open>tum kakh ja rya\<close> stand
  three times; and a corpus in which \<open>kas chal\<close> stands three times, always with the same Hinglish
  sentence, and \<open>bado balo\<close> twice.\<close>

definition long_dataset :: "example list" where
  "long_dataset = [(''where are you going'', ''tum kakh ja rya cha''),
     (''where are you going'', ''aaj tum kakh ja rya''),
     (''where are you going'', ''tum kakh ja rya ho ke'')]"

definition kas_dataset :: "example list" where
  "kas_dataset = [(''how are you'', ''kas chal cha''), (''how are you'', ''tum kas chal cha''),
     (''how are you'', ''kas chal cha ho''), (''very good'', ''bado balo''),
     (''very good'', ''bado balo cha'')]"

section \<open>Dictionaries: lookup after an update\<close>

lemma map_of_dict_set: "map_of (dict_set d k v) = (map_of d)(k \<mapsto> v)"
  by (induction d k v rule: dict_set.induct) auto

lemma keys_dict_set:
  "map_of d k \<noteq> None \<Longrightarrow> map fst (dict_set d k v) = map fst d"
  by (induction d k v rule: dict_set.induct) (auto split: if_splits)

lemma keys_dict_set_new:
  "map_of d k = None \<Longrightarrow> map fst (dict_set d k v) = map fst d @ [k]"
  by (induction d k v rule: dict_set.induct) (auto split: if_splits)

section \<open>Teaching a word\<close>

lemma map_of_append_at:
  "map_of (map (\<lambda>(k, rs). if k = h then (k, rs @ [r]) else (k, rs)) c) x =
     (if x = h then map_option (\<lambda>rs. rs @ [r]) (map_of c x) else map_of c x)"
  by (induction c) auto

lemma map_of_corrections_append:
  "map_of (corrections_append c h r) x =
     (if x = h then Some ((case map_of c h of None \<Rightarrow> [] | Some rs \<Rightarrow> rs) @ [r])
      else map_of c x)"
  by (auto simp: corrections_append_def Let_def map_of_append_at map_of_dict_set
      split: option.splits)

text \<open>
  Claim C3, as amended. \<open>add_word\<close> lowercases and trims the key and trims the value.
  When the vocabulary maps the key so formed to a value \<open>k'\<close> other than the trimmed
  value, the call returns \<open>True\<close>; the vocabulary maps the key to the trimmed value and
  every other key as before, and has the same keys in the same order (no entry keeps
  \<open>k'\<close>); and the corrections of the key are the earlier ones followed by the one
  record with \<open>old\<close> being \<open>k'\<close> and \<open>new\<close> the trimmed value, the corrections of the
  other keys being as before.
\<close>

theorem add_word_conflict:
  assumes "map_of (tm_vocab self) (strip (lower h)) = Some k'" and "k' \<noteq> strip k"
  shows "fst (add_word self h k now1 now2) = True \<and>
    map_of (tm_vocab (snd (add_word self h k now1 now2))) =
      (map_of (tm_vocab self))(strip (lower h) \<mapsto> strip k) \<and>
    map fst (tm_vocab (snd (add_word self h k now1 now2))) = map fst (tm_vocab self) \<and>
    map_of (tm_corrections_words (snd (add_word self h k now1 now2))) =
      (map_of (tm_corrections_words self))(strip (lower h) \<mapsto>
        (case map_of (tm_corrections_words self) (strip (lower h)) of
           None \<Rightarrow> [] | Some rs \<Rightarrow> rs)
          @ [\<lparr>old = k', new = strip k, timestamp = now1\<rparr>])"
  using assms
  by (auto simp: add_word_def Let_def write_word_def map_of_dict_set keys_dict_set
      map_of_corrections_append)

text \<open>
  The example of the specification: after \<open>add_word("ghar", "ghar")\<close>, the call
  \<open>add_word("ghar", "gher")\<close> leaves the vocabulary \<open>{"ghar": "gher"}\<close> and exactly one
  correction, \<open>{old: "ghar", new: "gher"}\<close>.
\<close>

theorem add_word_conflict_witness:
  "map_of (tm_vocab ghar_module) (strip (lower ''ghar'')) = Some ''ghar'' \<and>
   ''ghar'' \<noteq> strip ''gher'' \<and>
   fst (add_word ghar_module ''ghar'' ''gher'' ''t3'' ''t4'') = True \<and>
   tm_vocab (snd (add_word ghar_module ''ghar'' ''gher'' ''t3'' ''t4'')) =
     [(''ghar'', ''gher'')] \<and>
   tm_corrections_words (snd (add_word ghar_module ''ghar'' ''gher'' ''t3'' ''t4'')) =
     [(''ghar'', [\<lparr>old = ''ghar'', new = ''gher'', timestamp = ''t3''\<rparr>])] \<and>
   map_of (tm_corrections_words (snd (add_word ghar_module ''ghar'' ''gher'' ''t3'' ''t4''))) =
      (map_of (tm_corrections_words ghar_module))(strip (lower ''ghar'') \<mapsto>
        (case map_of (tm_corrections_words ghar_module) (strip (lower ''ghar'')) of
           None \<Rightarrow> [] | Some rs \<Rightarrow> rs)
          @ [\<lparr>old = ''ghar'', new = strip ''gher'', timestamp = ''t3''\<rparr>])"
proof -
  have h1: "map_of (tm_vocab ghar_module) (strip (lower ''ghar'')) = Some ''ghar''"
    by code_simp
  have h2: "''ghar'' \<noteq> strip ''gher''"
    by code_simp
  have v: "tm_vocab (snd (add_word ghar_module ''ghar'' ''gher'' ''t3'' ''t4'')) =
      [(''ghar'', ''gher'')]"
    by code_simp
  have c: "tm_corrections_words (snd (add_word ghar_module ''ghar'' ''gher'' ''t3'' ''t4'')) =
      [(''ghar'', [\<lparr>old = ''ghar'', new = ''gher'', timestamp = ''t3''\<rparr>])]"
    by code_simp
  from add_word_conflict [OF h1 h2, of "''t3''" "''t4''"] h1 h2 v c show ?thesis
    by blast
qed

text \<open>
  Claim C3 as stated fails. The vocabulary maps \<open>ghar\<close> to \<open>gher\<close>, and the value
  \<open>gher\<close> with a space before it is a different string; yet \<open>add_word\<close> with that value
  returns \<open>False\<close>, writes no correction and leaves the entry \<open>gher\<close>, since the value
  is trimmed before it is compared and stored.
\<close>

theorem add_word_untrimmed_counterexample:
  "map_of (tm_vocab gher_module) ''ghar'' = Some ''gher'' \<and>
   ''gher'' \<noteq> '' gher'' \<and>
   tm_corrections_words gher_module = [] \<and>
   fst (add_word gher_module ''ghar'' '' gher'' ''t3'' ''t4'') = False \<and>
   tm_vocab (snd (add_word gher_module ''ghar'' '' gher'' ''t3'' ''t4'')) =
     [(''ghar'', ''gher'')] \<and>
   tm_corrections_words (snd (add_word gher_module ''ghar'' '' gher'' ''t3'' ''t4'')) = []"
  by code_simp

text \<open>
  Claim C4. Whatever the module holds, a second \<open>add_word\<close> with the same pair returns
  \<open>False\<close> and leaves the module as the first call left it: the vocabulary, the
  corrections and the session log are all unchanged.
\<close>

theorem add_word_twice:
  "fst (add_word (snd (add_word self h k t1 t2)) h k t3 t4) = False \<and>
   snd (add_word (snd (add_word self h k t1 t2)) h k t3 t4) = snd (add_word self h k t1 t2)"
proof -
  have "map_of (tm_vocab (snd (add_word self h k t1 t2))) (strip (lower h)) = Some (strip k)"
    by (auto simp: add_word_def Let_def write_word_def map_of_dict_set split: option.splits)
  then show ?thesis
    by (simp add: add_word_def [of "snd (add_word self h k t1 t2)"] Let_def)
qed

section \<open>Language detection\<close>

lemma map_of_None_keys: "(map_of v w = None) = (w \<notin> set (map fst v))"
  by (simp add: map_of_eq_None_iff)

lemma count_words_eq:
  "count_words v ws (h, k) =
     (h + length (filter (\<lambda>w. w \<in> set (map fst v)) (map (strip_chars punct) ws)),
      k + length (filter (\<lambda>w. w \<notin> set (map fst v) \<and> w \<in> set (map snd v))
            (map (strip_chars punct) ws)))"
proof (induction ws arbitrary: h k)
  case Nil
  show ?case by simp
next
  case (Cons word ws)
  show ?case
  proof (cases "map_of v (strip_chars punct word) = None")
    case True
    then have "strip_chars punct word \<notin> set (map fst v)"
      using map_of_None_keys [of v "strip_chars punct word"] by (auto simp del: set_map)
    with True show ?thesis
      by (simp add: Let_def Cons.IH del: set_map)
  next
    case False
    then have "strip_chars punct word \<in> set (map fst v)"
      using map_of_None_keys [of v "strip_chars punct word"] by (auto simp del: set_map)
    with False show ?thesis
      by (simp add: Let_def Cons.IH del: set_map)
  qed
qed

lemma count_phrase_keys_eq:
  "count_phrase_keys ps text h =
     h + 3 * length (filter (\<lambda>p. contains (lower text) p) (map fst ps))"
  by (induction ps "text" h rule: count_phrase_keys.induct) auto

lemma count_phrase_values_eq:
  "count_phrase_values ps text k =
     k + 3 * length (filter (\<lambda>p. contains (lower text) p) (map snd ps))"
  by (induction ps "text" k rule: count_phrase_values.induct) auto

lemma detect_counts_eq:
  "detect_counts self text = (hinglish_votes self text, kumaoni_votes self text)"
  by (simp add: detect_counts_def Let_def count_words_eq count_phrase_keys_eq
      count_phrase_values_eq hinglish_votes_def kumaoni_votes_def tokens_def del: set_map)

text \<open>
  Claim C7, as amended. \<open>detect_language\<close> answers \<open>kumaoni\<close> exactly when the Kumaoni
  votes exceed the Hinglish votes, and \<open>hinglish\<close> otherwise, so also on a tie; a token
  votes Kumaoni only when it is among the vocabulary values and is not a vocabulary key.
  A text none of whose tokens is a vocabulary key or value, and in which no phrase key or
  value stands, has no votes at all and is \<open>hinglish\<close>.
\<close>

theorem detect_language_votes:
  "detect_language self text =
     (if kumaoni_votes self text > hinglish_votes self text then ''kumaoni'' else ''hinglish'') \<and>
   (detect_language self text = ''kumaoni'') =
     (kumaoni_votes self text > hinglish_votes self text) \<and>
   (kumaoni_votes self text = hinglish_votes self text \<longrightarrow>
      detect_language self text = ''hinglish'') \<and>
   ((\<forall>w \<in> set (tokens text). w \<notin> set (map fst (vocab self)) \<and> w \<notin> set (map snd (vocab self))) \<and>
    (\<forall>e \<in> set (phrases self).
       \<not> contains (lower text) (fst e) \<and> \<not> contains (lower text) (snd e)) \<longrightarrow>
      hinglish_votes self text = 0 \<and> kumaoni_votes self text = 0 \<and>
      detect_language self text = ''hinglish'')"
proof -
  have d: "detect_language self text =
     (if kumaoni_votes self text > hinglish_votes self text then ''kumaoni'' else ''hinglish'')"
    by (simp add: detect_language_def Let_def detect_counts_eq)
  have z: "hinglish_votes self text = 0 \<and> kumaoni_votes self text = 0"
    if "\<forall>w \<in> set (tokens text). w \<notin> set (map fst (vocab self)) \<and> w \<notin> set (map snd (vocab self))"
      and "\<forall>e \<in> set (phrases self).
       \<not> contains (lower text) (fst e) \<and> \<not> contains (lower text) (snd e)"
    using that by (auto simp: hinglish_votes_def kumaoni_votes_def filter_empty_conv)
  show ?thesis
    using d z by auto
qed

text \<open>
  Claim C7 as stated fails. With \<open>ghar\<close> both a key and a value of the vocabulary, the text
  \<open>ghar pani\<close> has two tokens among the vocabulary values and one among the keys, yet it
  is classified \<open>hinglish\<close>.
\<close>

theorem detect_language_claimed_votes_counterexample:
  "kumaoni_votes_claimed ambiguous_bot ''ghar pani'' = 2 \<and>
   hinglish_votes ambiguous_bot ''ghar pani'' = 1 \<and>
   detect_language ambiguous_bot ''ghar pani'' = ''hinglish''"
  by code_simp

text \<open>
  Claim C10. When every token of the text is both a vocabulary key and a vocabulary value
  and no phrase value stands in the lowercased text, the text is classified \<open>hinglish\<close>;
  and each such token, met by the loop with the counters \<open>(h, k)\<close>, leaves them at
  \<open>(h + 1, k)\<close>: only the Hinglish counter moves.
\<close>

theorem ambiguous_tokens_hinglish:
  assumes "\<forall>w \<in> set (tokens text). w \<in> set (map fst (vocab self)) \<and> w \<in> set (map snd (vocab self))"
    and "\<forall>e \<in> set (phrases self). \<not> contains (lower text) (snd e)"
  shows "detect_language self text = ''hinglish'' \<and>
    (\<forall>i < length (split (lower text)). \<forall>h k.
       count_words (vocab self) [split (lower text) ! i] (h, k) = (h + 1, k))"
proof -
  have k0: "kumaoni_votes self text = 0"
    using assms by (auto simp: kumaoni_votes_def filter_empty_conv)
  have d: "detect_language self text = ''hinglish''"
    by (simp add: detect_language_def Let_def detect_counts_eq k0)
  have "count_words (vocab self) [split (lower text) ! i] (h, k) = (h + 1, k)"
    if "i < length (split (lower text))" for i h k
  proof -
    have "strip_chars punct (split (lower text) ! i) \<in> set (tokens text)"
      using that by (simp add: tokens_def)
    with assms(1) show ?thesis
      by (simp add: count_words_eq del: set_map)
  qed
  with d show ?thesis by blast
qed

text \<open>The text \<open>namaste dost\<close> has no token and no phrase of the store.\<close>

theorem detect_language_votes_witness:
  "list_all (\<lambda>w. w \<notin> set (map fst (vocab ambiguous_bot)) \<and>
                 w \<notin> set (map snd (vocab ambiguous_bot))) (tokens ''namaste dost'') \<and>
   list_all (\<lambda>e. \<not> contains (lower ''namaste dost'') (fst e) \<and>
                 \<not> contains (lower ''namaste dost'') (snd e)) (phrases ambiguous_bot) \<and>
   hinglish_votes ambiguous_bot ''namaste dost'' = 0 \<and>
   kumaoni_votes ambiguous_bot ''namaste dost'' = 0 \<and>
   detect_language ambiguous_bot ''namaste dost'' = ''hinglish''"
proof -
  have h1: "list_all (\<lambda>w. w \<notin> set (map fst (vocab ambiguous_bot)) \<and>
                 w \<notin> set (map snd (vocab ambiguous_bot))) (tokens ''namaste dost'')"
    by code_simp
  have h2: "list_all (\<lambda>e. \<not> contains (lower ''namaste dost'') (fst e) \<and>
                 \<not> contains (lower ''namaste dost'') (snd e)) (phrases ambiguous_bot)"
    by code_simp
  from detect_language_votes [of ambiguous_bot "''namaste dost''"] h1 h2 show ?thesis
    unfolding list_all_iff by blast
qed

text \<open>Both tokens of \<open>Ghar ghar!\<close> are the word \<open>ghar\<close>, a key and a value.\<close>

theorem ambiguous_tokens_hinglish_witness:
  "list_all (\<lambda>w. w \<in> set (map fst (vocab ambiguous_bot)) \<and>
                 w \<in> set (map snd (vocab ambiguous_bot))) (tokens ''Ghar ghar!'') \<and>
   list_all (\<lambda>e. \<not> contains (lower ''Ghar ghar!'') (snd e)) (phrases ambiguous_bot) \<and>
   detect_language ambiguous_bot ''Ghar ghar!'' = ''hinglish''"
proof -
  have h1: "list_all (\<lambda>w. w \<in> set (map fst (vocab ambiguous_bot)) \<and>
                 w \<in> set (map snd (vocab ambiguous_bot))) (tokens ''Ghar ghar!'')"
    by code_simp
  have h2: "list_all (\<lambda>e. \<not> contains (lower ''Ghar ghar!'') (snd e)) (phrases ambiguous_bot)"
    by code_simp
  from ambiguous_tokens_hinglish [of "''Ghar ghar!''" ambiguous_bot] h1 h2 show ?thesis
    unfolding list_all_iff by blast
qed

section \<open>Unrecognised arguments\<close>

text \<open>
  Claim C6, as amended. A preference other than \<open>kumaoni\<close>, \<open>hinglish\<close> and \<open>mixed\<close>
  is answered with the message \<open>Invalid language preference. ...\<close> and the chatbot is
  left as it was; each of the three is stored and acknowledged. A direction is not
  checked: every direction other than \<open>hinglish_to_kumaoni\<close> is translated as
  \<open>kumaoni_to_hinglish\<close>, by \<open>translate_word\<close> and by \<open>translate\<close>.
\<close>

theorem unrecognised_arguments:
  "(preference \<notin> set [''kumaoni'', ''hinglish'', ''mixed''] \<longrightarrow>
      set_language_preference self preference =
        (''Invalid language preference. Use 'kumaoni', 'hinglish', or 'mixed'.'', self)) \<and>
   (\<forall>p \<in> set [''kumaoni'', ''hinglish'', ''mixed''].
      set_language_preference self p =
        (''Language preference set to '' @ p,
         self\<lparr>conversation_context := (conversation_context self)\<lparr>language_preference := p\<rparr>\<rparr>)) \<and>
   (direction \<noteq> ''hinglish_to_kumaoni'' \<longrightarrow>
      translate_word self word direction = translate_word self word ''kumaoni_to_hinglish'' \<and>
      translate self text direction = translate self text ''kumaoni_to_hinglish'')"
  by (simp add: set_language_preference_def translate_def translate_word_def phrase_pass_def)

text \<open>
  Claim C6 as stated fails for the direction: with the unknown direction \<open>sideways\<close> the
  calls return a translation into Hinglish, not a rejection.
\<close>

theorem unrecognised_direction_counterexample:
  "translate_word ambiguous_bot ''pani'' ''sideways'' = ''paani'' \<and>
   translate ambiguous_bot ''ghar pani'' ''sideways'' = ''ghar paani''"
  by code_simp

theorem unrecognised_arguments_witness:
  "''bogus'' \<notin> set [''kumaoni'', ''hinglish'', ''mixed''] \<and>
   set_language_preference ambiguous_bot ''bogus'' =
     (''Invalid language preference. Use 'kumaoni', 'hinglish', or 'mixed'.'', ambiguous_bot) \<and>
   language_preference (conversation_context (snd (set_language_preference ambiguous_bot ''kumaoni'')))
     = ''kumaoni'' \<and>
   ''sideways'' \<noteq> ''hinglish_to_kumaoni'' \<and>
   translate ambiguous_bot ''ghar pani'' ''sideways'' =
     translate ambiguous_bot ''ghar pani'' ''kumaoni_to_hinglish''"
proof -
  have h1: "''bogus'' \<notin> set [''kumaoni'', ''hinglish'', ''mixed'']"
    by simp
  have h2: "''sideways'' \<noteq> ''hinglish_to_kumaoni''"
    by simp
  from unrecognised_arguments [of "''bogus''" ambiguous_bot "''sideways''" "''pani''" "''ghar pani''"]
    h1 h2 show ?thesis
    by simp
qed

section \<open>Forward and back through the vocabulary\<close>

lemma reverse_lookup_unique:
  "(h, k) \<in> set d \<Longrightarrow> \<forall>e \<in> set d. lower (snd e) = lower k \<longrightarrow> fst e = h \<Longrightarrow>
     reverse_lookup d (lower k) = Some h"
  by (induction d) auto

text \<open>
  Claim C8, as amended. Let \<open>h\<close> be a vocabulary key that is no pronoun, question word or
  postposition, and \<open>k\<close> its value. If \<open>h\<close> is in the form the lookup uses (lower case,
  no punctuation at its ends), \<open>k\<close> has no punctuation at its ends, and no other
  vocabulary entry has a value equal to \<open>k\<close> up to case, then \<open>h\<close> translates forward to
  \<open>k\<close> and \<open>k\<close> translates back to \<open>h\<close>.
\<close>

theorem vocabulary_round_trip:
  assumes "map_of (vocab self) h = Some k"
    and "map_of (pronouns (grammar self)) h = None"
    and "map_of (question_words (grammar self)) h = None"
    and "map_of (postpositions (grammar self)) h = None"
    and "strip_chars punct (lower h) = h"
    and "strip_chars punct (lower k) = lower k"
    and "\<forall>e \<in> set (vocab self). lower (snd e) = lower k \<longrightarrow> fst e = h"
  shows "translate_word self h ''hinglish_to_kumaoni'' = k \<and>
         translate_word self k ''kumaoni_to_hinglish'' = h"
proof -
  have fwd: "translate_word self h ''hinglish_to_kumaoni'' = k"
    using assms(1-5) by (simp add: translate_word_def)
  have "(h, k) \<in> set (vocab self)"
    using assms(1) by (rule map_of_SomeD)
  then have "reverse_lookup (vocab self) (lower k) = Some h"
    using assms(7) by (rule reverse_lookup_unique)
  then have "translate_word self k ''kumaoni_to_hinglish'' = h"
    using assms(6) by (simp add: translate_word_def)
  with fwd show ?thesis by simp
qed

text \<open>
  Claim C8 as stated fails. \<open>hello\<close> is in the vocabulary only, and no other entry shares
  its value \<open>hi!\<close>; it translates forward to \<open>hi!\<close>, but \<open>hi!\<close> is looked up as \<open>hi\<close>,
  which is no value, and comes back unchanged.
\<close>

theorem vocabulary_round_trip_counterexample:
  "map_of (vocab greeting_bot) ''hello'' = Some ''hi!'' \<and>
   map_of (pronouns (grammar greeting_bot)) ''hello'' = None \<and>
   map_of (question_words (grammar greeting_bot)) ''hello'' = None \<and>
   map_of (postpositions (grammar greeting_bot)) ''hello'' = None \<and>
   map_of (verb_endings (grammar greeting_bot)) ''hello'' = None \<and>
   translate_word greeting_bot ''hello'' ''hinglish_to_kumaoni'' = ''hi!'' \<and>
   translate_word greeting_bot ''hi!'' ''kumaoni_to_hinglish'' = ''hi!'' \<and>
   translate_word greeting_bot
     (translate_word greeting_bot ''hello'' ''hinglish_to_kumaoni'') ''kumaoni_to_hinglish''
     \<noteq> ''hello''"
  by code_simp

theorem vocabulary_round_trip_witness:
  "map_of (vocab ambiguous_bot) ''paani'' = Some ''pani'' \<and>
   strip_chars punct (lower ''paani'') = ''paani'' \<and>
   strip_chars punct (lower ''pani'') = lower ''pani'' \<and>
   list_all (\<lambda>e. lower (snd e) \<noteq> lower ''pani'' \<or> fst e = ''paani'') (vocab ambiguous_bot) \<and>
   translate_word ambiguous_bot ''paani'' ''hinglish_to_kumaoni'' = ''pani'' \<and>
   translate_word ambiguous_bot ''pani'' ''kumaoni_to_hinglish'' = ''paani''"
proof -
  have h1: "map_of (vocab ambiguous_bot) ''paani'' = Some ''pani''" by code_simp
  have h2: "map_of (pronouns (grammar ambiguous_bot)) ''paani'' = None" by code_simp
  have h3: "map_of (question_words (grammar ambiguous_bot)) ''paani'' = None" by code_simp
  have h4: "map_of (postpositions (grammar ambiguous_bot)) ''paani'' = None" by code_simp
  have h5: "strip_chars punct (lower ''paani'') = ''paani''" by code_simp
  have h6: "strip_chars punct (lower ''pani'') = lower ''pani''" by code_simp
  have h7: "list_all (\<lambda>e. lower (snd e) \<noteq> lower ''pani'' \<or> fst e = ''paani'') (vocab ambiguous_bot)"
    by code_simp
  then have h7': "\<forall>e \<in> set (vocab ambiguous_bot). lower (snd e) = lower ''pani'' \<longrightarrow> fst e = ''paani''"
    unfolding list_all_iff by blast
  from vocabulary_round_trip [OF h1 h2 h3 h4 h5 h6 h7'] h1 h5 h6 h7 show ?thesis
    by blast
qed

section \<open>Translating a word forward\<close>

lemma startswith_take: "startswith s p = (take (length p) s = p)"
  by (induction s p rule: startswith.induct) auto

lemma endswith_iff: "endswith w e = (\<exists>a. w = a @ e)"
proof
  assume "endswith w e"
  then have "take (length e) (rev w) = rev e"
    by (simp add: endswith_def startswith_take)
  then have "rev (take (length e) (rev w)) = e" by simp
  then have "drop (length w - length e) w = e"
    by (simp add: rev_take)
  then have "w = take (length w - length e) w @ e"
    by (metis append_take_drop_id)
  then show "\<exists>a. w = a @ e" ..
next
  assume "\<exists>a. w = a @ e"
  then show "endswith w e"
    by (auto simp: endswith_def startswith_take)
qed

lemma slice_strips_suffix: "e \<noteq> [] \<Longrightarrow> slice_to_neg (a @ e) (length e) = a"
  by (simp add: slice_to_neg_def)

lemma slice_empty_suffix: "slice_to_neg w (length ([] :: string)) = []"
  by (simp add: slice_to_neg_def)

lemma apply_verb_endings_skip:
  "\<forall>x \<in> set d1. \<not> (endswith w (fst x) \<and> length (fst x) < length w) \<Longrightarrow>
     apply_verb_endings (d1 @ d2) w = apply_verb_endings d2 w"
  by (induction d1) auto

text \<open>The first entry whose suffix is not empty and ends the token, leaving a remainder
  that is not empty, has its suffix replaced by the mapped ending.\<close>

lemma verb_ending_rule:
  assumes "\<forall>x \<in> set d1. \<not> (endswith (a @ e) (fst x) \<and> length (fst x) < length (a @ e))"
    and "a \<noteq> []" and "e \<noteq> []"
  shows "apply_verb_endings (d1 @ (e, t) # d2) (a @ e) = Some (a @ t)"
  using assms(2,3) 
  by (simp add: apply_verb_endings_skip [OF assms(1)] endswith_iff slice_strips_suffix)

text \<open>
  The whole-token tables are consulted in the order pronouns, question words,
  postpositions, vocabulary, the first hit winning; the verb endings are scanned only
  when none has the token, and the word itself is returned when no ending applies.
\<close>

lemma translate_word_forward:
  "translate_word self word ''hinglish_to_kumaoni'' =
     (let w = strip_chars punct (lower word) in
      case map_of (pronouns (grammar self) @ question_words (grammar self) @
                   postpositions (grammar self) @ vocab self) w of
        Some v \<Rightarrow> v
      | None \<Rightarrow> (case apply_verb_endings (verb_endings (grammar self)) w of
                   Some v \<Rightarrow> v | None \<Rightarrow> word))"
  by (simp add: translate_word_def Let_def map_add_def split: option.splits)

text \<open>
  Claim C1. The two examples of the claim hold: \<open>main\<close> gives \<open>ma\<close> and \<open>khana\<close> gives
  \<open>khano\<close>. With a verb ending whose suffix is empty the code departs from the claim:
  the empty suffix ends \<open>abc\<close> and leaves the remainder \<open>abc\<close>, and the code returns the
  mapped ending \<open>x\<close> alone, since \<open>word_lower[:-0]\<close> is the empty string; stripping the
  suffix and appending the ending would give \<open>abcx\<close>.
\<close>

theorem translate_word_empty_suffix:
  "translate_word suffix_bot ''main'' ''hinglish_to_kumaoni'' = ''ma'' \<and>
   translate_word suffix_bot ''khana'' ''hinglish_to_kumaoni'' = ''khano'' \<and>
   endswith ''abc'' '''' \<and>
   translate_word suffix_bot ''abc'' ''hinglish_to_kumaoni'' = ''x''"
  by code_simp

section \<open>Phrases before words\<close>

text \<open>
  Claim C9. With the built-in grammar rules and the phrase \<open>kaise ho\<close> registered, the
  phrase pass turns \<open>aap kaise ho\<close> into \<open>aap kas cha\<close>; the word pass then translates
  the words of the substituted phrase as well, \<open>cha\<close> falls under the verb ending \<open>a\<close>,
  and the result \<open>tum kas cho\<close> does not contain \<open>kas cha\<close>.
\<close>

theorem translate_retranslates_phrase:
  "phrase_pass (phrases kaise_bot) ''aap kaise ho'' ''hinglish_to_kumaoni'' = ''aap kas cha'' \<and>
   translate kaise_bot ''aap kaise ho'' ''hinglish_to_kumaoni'' = ''tum kas cho'' \<and>
   \<not> contains (translate kaise_bot ''aap kaise ho'' ''hinglish_to_kumaoni'') ''kas cha''"
  by code_simp

text \<open>When the store holds only the phrase and the word rule for \<open>kaise\<close>, no rule touches
  \<open>kas\<close> or \<open>cha\<close> and the result is \<open>aap kas cha\<close>.\<close>

lemma translate_phrase_minimal_store:
  "translate kaise_only_bot ''aap kaise ho'' ''hinglish_to_kumaoni'' = ''aap kas cha''"
  by code_simp

section \<open>The phrase pass\<close>









section \<open>Extracting idioms\<close>

text \<open>The loop over \<open>n\<close> and \<open>i\<close> meets a phrase once for each of its places in the
  sentence.\<close>

lemma count_list_map: "count_list (map f xs) p = length (filter (\<lambda>i. f i = p) xs)"
  by (induction xs) auto

lemma upt_split: "k \<le> l \<Longrightarrow> [0..<l] = [0..<k] @ [k..<l]"
  using upt_add_eq_append [of 0 k "l - k"] by simp

lemma count_ngrams:
  assumes "0 < n"
  shows "count_list (ngrams ws n) p =
    length (filter (\<lambda>i. i + n \<le> length ws \<and> join '' '' (take n (drop i ws)) = p)
      [0..<length ws])"
proof (cases "n \<le> length ws")
  case True
  let ?Q = "\<lambda>i. i + n \<le> length ws \<and> join '' '' (take n (drop i ws)) = p"
  let ?R = "\<lambda>i. join '' '' (take n (drop i ws)) = p"
  let ?k = "length ws - n + 1"
  have "?k \<le> length ws"
    using True assms by arith
  then have u: "[0..<length ws] = [0..<?k] @ [?k..<length ws]"
    by (rule upt_split)
  have a: "filter ?Q [0..<?k] = filter ?R [0..<?k]"
    using True by (intro filter_cong) auto
  have b: "filter ?Q [?k..<length ws] = []"
    by (auto simp: filter_empty_conv)
  have "filter ?Q [0..<length ws] = filter ?Q ([0..<?k] @ [?k..<length ws])"
    using u by (rule arg_cong)
  also have "\<dots> = filter ?Q [0..<?k] @ filter ?Q [?k..<length ws]"
    by (rule filter_append)
  also have "\<dots> = filter ?R [0..<?k]"
    by (simp only: a b append_Nil2)
  finally have f: "filter ?Q [0..<length ws] = filter ?R [0..<?k]" .
  have "count_list (ngrams ws n) p = length (filter ?R [0..<?k])"
    using True by (simp only: ngrams_def if_True count_list_map)
  then show ?thesis by (simp only: f)
next
  case False
  then show ?thesis by (auto simp: ngrams_def filter_empty_conv)
qed

lemma upt_2_5: "[2..<5] = [2, 3, 4::nat]"
  by (simp add: upt_rec)

lemma count_item_phrases:
  "count_list (item_phrases item) p = length (places (split (snd item)) p)"
  by (simp add: item_phrases_def upt_2_5 count_ngrams places_def comp_def)

lemma aligned_Cons:
  "aligned (item # dataset) p =
     replicate (count_list (item_phrases item) p) (fst item) @ aligned dataset p"
  by (simp add: aligned_def count_item_phrases map_replicate_const)

text \<open>The collected dictionary holds, for every phrase, the aligned Hinglish sentences in
  the order of the corpus, and its keys are distinct.\<close>

lemma map_of_dd_append:
  "map_of (dd_append d p h) = (map_of d)(p \<mapsto> lookup_list d p @ [h])"
  by (induction d p h rule: dd_append.induct) (auto simp: lookup_list_def)

lemma keys_dd_append: "set (map fst (dd_append d p h)) = insert p (set (map fst d))"
  by (induction d p h rule: dd_append.induct) auto

lemma distinct_dd_append:
  "distinct (map fst d) \<Longrightarrow> distinct (map fst (dd_append d p h))"
proof (induction d p h rule: dd_append.induct)
  case (1 phrase h)
  show ?case by simp
next
  case (2 q hs d phrase h)
  then show ?case
    using keys_dd_append [of d phrase h] by (auto simp del: set_map)
qed

lemma lookup_dd_append:
  "lookup_list (dd_append d p h) q = (if q = p then lookup_list d p @ [h] else lookup_list d q)"
  by (simp add: lookup_list_def map_of_dd_append)

lemma lookup_fold_dd:
  "lookup_list (foldl (\<lambda>d phrase. dd_append d phrase h) d ps) q =
     lookup_list d q @ replicate (count_list ps q) h"
proof (induction ps arbitrary: d)
  case Nil
  show ?case by simp
next
  case (Cons x ps)
  show ?case
    by (simp add: Cons.IH lookup_dd_append replicate_append_same)
qed

lemma distinct_fold_dd:
  "distinct (map fst d) \<Longrightarrow>
     distinct (map fst (foldl (\<lambda>d phrase. dd_append d phrase h) d ps))"
  by (induction ps arbitrary: d) (auto simp: distinct_dd_append)

lemma lookup_collect_item:
  "lookup_list (collect_item d item) p =
     lookup_list d p @ replicate (count_list (item_phrases item) p) (fst item)"
  by (simp add: collect_item_def lookup_fold_dd)

lemma lookup_collect_from:
  "lookup_list (foldl collect_item d dataset) p = lookup_list d p @ aligned dataset p"
proof (induction dataset arbitrary: d)
  case Nil
  show ?case by (simp add: aligned_def)
next
  case (Cons item dataset)
  show ?case
    by (simp add: Cons.IH lookup_collect_item aligned_Cons)
qed

lemma lookup_list_Nil: "lookup_list [] p = []"
  by (simp add: lookup_list_def)

lemma lookup_collect: "lookup_list (collect_phrases dataset) p = aligned dataset p"
  by (simp add: collect_phrases_def lookup_collect_from lookup_list_Nil)

lemma distinct_collect_item:
  "distinct (map fst d) \<Longrightarrow> distinct (map fst (collect_item d item))"
  by (simp add: collect_item_def distinct_fold_dd)

lemma distinct_collect_from:
  "distinct (map fst d) \<Longrightarrow> distinct (map fst (foldl collect_item d dataset))"
  by (induction dataset arbitrary: d) (auto simp: distinct_collect_item)

lemma distinct_collect: "distinct (map fst (collect_phrases dataset))"
  by (simp add: collect_phrases_def distinct_collect_from)

lemma length_aligned: "length (aligned dataset p) = occurrences dataset p"
  by (induction dataset) (auto simp: aligned_def occurrences_def)

text \<open>\<open>Counter\<close> holds the number of appearances of each element, and
  \<open>most_common(1)[0]\<close> is an element that appears most often.\<close>

lemma map_of_counter_add:
  "map_of (counter_add c t) =
     (map_of c)(t \<mapsto> (case map_of c t of None \<Rightarrow> 1 | Some n \<Rightarrow> n + 1))"
  by (induction c t rule: counter_add.induct) auto

lemma keys_counter_add: "set (map fst (counter_add c t)) = insert t (set (map fst c))"
  by (induction c t rule: counter_add.induct) auto

lemma distinct_counter_add:
  "distinct (map fst c) \<Longrightarrow> distinct (map fst (counter_add c t))"
proof (induction c t rule: counter_add.induct)
  case (1 t)
  show ?case by simp
next
  case (2 t' n c t)
  then show ?case
    using keys_counter_add [of c t] by (auto simp del: set_map)
qed

lemma Counter_snoc: "Counter (ts @ [t]) = counter_add (Counter ts) t"
  by (simp add: Counter_def)

lemma distinct_Counter: "distinct (map fst (Counter ts))"
proof (induction ts rule: rev_induct)
  case Nil
  show ?case by (simp add: Counter_def)
next
  case (snoc t ts)
  then show ?case by (simp add: Counter_snoc distinct_counter_add)
qed

lemma count_list_snoc: "count_list (ts @ [t]) x = count_list ts x + (if x = t then 1 else 0)"
  by (induction ts) auto

lemma map_of_Counter:
  "map_of (Counter ts) x = (if x \<in> set ts then Some (count_list ts x) else None)"
proof (induction ts arbitrary: x rule: rev_induct)
  case Nil
  show ?case by (simp add: Counter_def)
next
  case (snoc t ts)
  show ?case
    by (auto simp: Counter_snoc map_of_counter_add snoc.IH count_list_snoc
        count_list_0_iff)
qed

lemma Counter_entries:
  "((x, n) \<in> set (Counter ts)) = (x \<in> set ts \<and> n = count_list ts x)"
proof -
  have "((x, n) \<in> set (Counter ts)) = (map_of (Counter ts) x = Some n)"
    using distinct_Counter [of ts] by simp
  then show ?thesis by (auto simp: map_of_Counter)
qed

lemma max_by_count_mem: "max_by_count best xs \<in> set (best # xs)"
  by (induction best xs rule: max_by_count.induct) auto

lemma max_by_count_all: "\<forall>x \<in> set (best # xs). snd x \<le> snd (max_by_count best xs)"
proof (induction best xs rule: max_by_count.induct)
  case (1 best)
  show ?case by simp
next
  case (2 best y xs)
  show ?case
  proof (cases "snd best < snd y")
    case True
    with "2.IH"(1) have "\<forall>x \<in> set (y # xs). snd x \<le> snd (max_by_count y xs)" by simp
    moreover from this have "snd y \<le> snd (max_by_count y xs)" by simp
    ultimately show ?thesis using True by auto
  next
    case False
    with "2.IH"(2) have "\<forall>x \<in> set (best # xs). snd x \<le> snd (max_by_count best xs)" by simp
    moreover from this have "snd best \<le> snd (max_by_count best xs)" by simp
    ultimately show ?thesis using False by auto
  qed
qed

lemma max_by_count_ge: "x \<in> set (best # xs) \<Longrightarrow> snd x \<le> snd (max_by_count best xs)"
  using max_by_count_all by blast

lemma most_common1_Counter:
  assumes "ts \<noteq> []"
  obtains m where "most_common1 (Counter ts) = Some (m, count_list ts m)"
    and "m \<in> set ts" and "\<forall>t. count_list ts t \<le> count_list ts m"
proof -
  from assms obtain t where "t \<in> set ts" by (cases ts) auto
  then have "(t, count_list ts t) \<in> set (Counter ts)" by (simp add: Counter_entries)
  then obtain e es where c: "Counter ts = e # es" by (cases "Counter ts") auto
  define mc where "mc = max_by_count e es"
  have mc: "most_common1 (Counter ts) = Some mc"
    by (simp add: most_common1_def c mc_def)
  have "mc \<in> set (Counter ts)"
    unfolding mc_def c by (rule max_by_count_mem)
  then have "fst mc \<in> set ts \<and> snd mc = count_list ts (fst mc)"
    using Counter_entries [of "fst mc" "snd mc" ts] by simp
  then have m1: "fst mc \<in> set ts" and m2: "snd mc = count_list ts (fst mc)"
    by simp_all
  have "count_list ts x \<le> count_list ts (fst mc)" for x
  proof (cases "x \<in> set ts")
    case True
    then have "(x, count_list ts x) \<in> set (Counter ts)"
      by (simp add: Counter_entries)
    then have "(x, count_list ts x) \<in> set (e # es)"
      by (simp only: c)
    then have "snd (x, count_list ts x) \<le> snd (max_by_count e es)"
      by (rule max_by_count_ge)
    then show ?thesis using m2 by (simp add: mc_def)
  next
    case False
    then show ?thesis by (simp add: count_list_0_iff)
  qed
  then have "\<forall>t. count_list ts t \<le> count_list ts (fst mc)" by blast
  moreover have "most_common1 (Counter ts) = Some (fst mc, count_list ts (fst mc))"
    using mc m2 by (metis prod.collapse)
  ultimately show ?thesis using that m1 by blast
qed

text \<open>An element with at least 70 per cent of the appearances is the most frequent one.\<close>

lemma count_list_two: "x \<noteq> y \<Longrightarrow> count_list ts x + count_list ts y \<le> length ts"
  by (induction ts) auto

lemma idiom_of_iff:
  "(idiom_of ts = Some m) = (3 \<le> length ts \<and> 7 * length ts \<le> 10 * count_list ts m)"
proof (cases "3 \<le> length ts")
  case False
  then show ?thesis by (simp add: idiom_of_def)
next
  case True
  then have "ts \<noteq> []" by auto
  then obtain mc where mc: "most_common1 (Counter ts) = Some (mc, count_list ts mc)"
    and top: "\<forall>t. count_list ts t \<le> count_list ts mc"
    by (rule most_common1_Counter)
  have i: "idiom_of ts =
      (if 7 * length ts \<le> 10 * count_list ts mc then Some mc else None)"
    using True by (simp add: idiom_of_def mc)
  show ?thesis
  proof
    assume "idiom_of ts = Some m"
    with i True show "3 \<le> length ts \<and> 7 * length ts \<le> 10 * count_list ts m"
      by (auto split: if_splits)
  next
    assume r: "3 \<le> length ts \<and> 7 * length ts \<le> 10 * count_list ts m"
    have "m = mc"
    proof (rule ccontr)
      assume "m \<noteq> mc"
      then have "count_list ts m + count_list ts mc \<le> length ts"
        by (rule count_list_two)
      moreover have "count_list ts m \<le> count_list ts mc" using top by blast
      ultimately show False using r by linarith
    qed
    with r i show "idiom_of ts = Some m" by simp
  qed
qed

lemma idiom_of_most_frequent:
  assumes "idiom_of ts = Some m"
  shows "count_list ts t \<le> count_list ts m"
proof -
  from assms have "3 \<le> length ts" by (simp add: idiom_of_iff)
  then have "ts \<noteq> []" by auto
  then obtain mc where mc: "most_common1 (Counter ts) = Some (mc, count_list ts mc)"
    and top: "\<forall>t. count_list ts t \<le> count_list ts mc"
    by (rule most_common1_Counter)
  from assms mc have "m = mc"
    by (auto simp: idiom_of_def split: if_splits)
  with top show ?thesis by blast
qed

lemma select_idiom_eq:
  "select_idiom idioms e =
     (case idiom_of (snd e) of None \<Rightarrow> idioms | Some m \<Rightarrow> dict_set idioms (fst e) m)"
  by (simp add: select_idiom_def idiom_of_def split: option.splits)

lemma map_of_select_from:
  "distinct (map fst d) \<Longrightarrow>
     map_of (foldl select_idiom idioms d) p =
       (case map_of d p of
          None \<Rightarrow> map_of idioms p
        | Some ts \<Rightarrow> (case idiom_of ts of None \<Rightarrow> map_of idioms p | Some m \<Rightarrow> Some m))"
proof (induction d arbitrary: idioms)
  case Nil
  show ?case by simp
next
  case (Cons e d)
  obtain q ts where e: "e = (q, ts)" by (cases e)
  from Cons.prems e have q: "map_of d q = None" and dd: "distinct (map fst d)"
    by (auto simp: map_of_eq_None_iff)
  have step: "map_of (select_idiom idioms (q, ts)) =
      (case idiom_of ts of
         None \<Rightarrow> map_of idioms
       | Some m \<Rightarrow> (map_of idioms)(q \<mapsto> m))"
    by (simp add: select_idiom_eq map_of_dict_set split: option.splits)
  have lhs: "map_of (foldl select_idiom idioms (e # d)) p =
      (case map_of d p of
         None \<Rightarrow> map_of (select_idiom idioms (q, ts)) p
       | Some ts' \<Rightarrow> (case idiom_of ts' of
            None \<Rightarrow> map_of (select_idiom idioms (q, ts)) p | Some m \<Rightarrow> Some m))"
    using Cons.IH [OF dd, of "select_idiom idioms (q, ts)"] by (simp add: e)
  show ?case
  proof (cases "p = q")
    case True
    then show ?thesis
      unfolding lhs by (simp add: e q step split: option.splits)
  next
    case False
    then show ?thesis
      unfolding lhs by (simp add: e step split: option.splits)
  qed
qed

lemma map_of_extract_idioms:
  "map_of (extract_idioms dataset) p = idiom_of (aligned dataset p)"
proof -
  have l: "lookup_list (collect_phrases dataset) p = aligned dataset p"
    by (rule lookup_collect)
  have short: "idiom_of [] = None" by (simp add: idiom_of_def)
  show ?thesis
  proof (cases "map_of (collect_phrases dataset) p")
    case None
    with l have "aligned dataset p = []" by (simp add: lookup_list_def)
    with None show ?thesis
      by (simp add: extract_idioms_def map_of_select_from [OF distinct_collect] short)
  next
    case (Some ts)
    with l have "aligned dataset p = ts" by (simp add: lookup_list_def)
    with Some show ?thesis
      by (simp add: extract_idioms_def map_of_select_from [OF distinct_collect]
          split: option.splits)
  qed
qed

text \<open>The phrases of an item are its runs of two, three or four words.\<close>

lemma set_ngrams:
  "set (ngrams ws n) = {join '' '' (take n (drop i ws)) | i. i + n \<le> length ws}"
proof (cases "n \<le> length ws")
  case True
  have "set (ngrams ws n) =
      (\<lambda>i. join '' '' (take n (drop i ws))) ` set [0..<length ws - n + 1]"
    using True by (simp only: ngrams_def if_True set_map)
  moreover have "set [0..<length ws - n + 1] = {i. i + n \<le> length ws}"
    using True by (auto simp only: set_upt atLeastLessThan_iff)
  ultimately have "set (ngrams ws n) =
      (\<lambda>i. join '' '' (take n (drop i ws))) ` {i. i + n \<le> length ws}"
    by (simp only:)
  then show ?thesis by blast
next
  case False
  then show ?thesis by (auto simp: ngrams_def)
qed

lemma item_phrases_iff:
  "(p \<in> set (item_phrases item)) =
     (\<exists>n \<in> {2, 3, 4}. \<exists>i. i + n \<le> length (split (snd item)) \<and>
        p = join '' '' (take n (drop i (split (snd item)))))"
  by (auto simp: item_phrases_def upt_2_5 set_ngrams)

lemma occurrences_pos:
  "(0 < occurrences dataset p) = (\<exists>item \<in> set dataset. p \<in> set (item_phrases item))"
proof -
  have "occurrences dataset p = (\<Sum>item\<leftarrow>dataset. count_list (item_phrases item) p)"
    by (simp add: occurrences_def count_item_phrases)
  then show ?thesis
    by (simp add: sum_list_eq_0_iff count_list_0_iff flip: neq0_conv) 
qed

lemma occurrences_ngram:
  "(0 < occurrences dataset p) =
     (\<exists>item \<in> set dataset. \<exists>n \<in> {2, 3, 4}. \<exists>i. i + n \<le> length (split (snd item)) \<and>
        p = join '' '' (take n (drop i (split (snd item)))))"
  unfolding occurrences_pos item_phrases_iff ..

text \<open>
  Claim C5. A phrase occurs in the corpus at every place of a Kumaoni sentence where two,
  three or four words in a row, joined by single spaces, spell it. \<open>extract_idioms\<close>
  records the meaning \<open>m\<close> for the phrase \<open>p\<close> exactly when \<open>p\<close> occurs at least three
  times and \<open>m\<close> is aligned with at least 70 per cent of the occurrences
  (\<open>7 * n \<le> 10 * c\<close> for \<open>c\<close> of \<open>n\<close> occurrences); \<open>m\<close> is then a most frequent aligned
  sentence. A phrase occurring three times, always with the sentence \<open>h\<close>, is recorded
  with \<open>h\<close>; a phrase occurring twice is not recorded.
\<close>

theorem extract_idioms_threshold:
  "(map_of (extract_idioms dataset) p = Some m) =
     (3 \<le> occurrences dataset p \<and>
      7 * occurrences dataset p \<le> 10 * count_list (aligned dataset p) m) \<and>
   length (aligned dataset p) = occurrences dataset p \<and>
   (0 < occurrences dataset p) =
     (\<exists>item \<in> set dataset. \<exists>n \<in> {2, 3, 4}. \<exists>i. i + n \<le> length (split (snd item)) \<and>
        p = join '' '' (take n (drop i (split (snd item))))) \<and>
   (map_of (extract_idioms dataset) p = Some m \<longrightarrow>
      (\<forall>m'. count_list (aligned dataset p) m' \<le> count_list (aligned dataset p) m)) \<and>
   (aligned dataset p = [h, h, h] \<longrightarrow> map_of (extract_idioms dataset) p = Some h) \<and>
   (occurrences dataset p' = 2 \<longrightarrow> map_of (extract_idioms dataset) p' = None)"
proof -
  have iff: "(map_of (extract_idioms dataset) q = Some x) =
     (3 \<le> occurrences dataset q \<and>
      7 * occurrences dataset q \<le> 10 * count_list (aligned dataset q) x)" for q x
    by (simp add: map_of_extract_idioms idiom_of_iff length_aligned)
  have top: "\<forall>m'. count_list (aligned dataset p) m' \<le> count_list (aligned dataset p) m"
    if "map_of (extract_idioms dataset) p = Some m"
    using that idiom_of_most_frequent [of "aligned dataset p" m]
    by (simp add: map_of_extract_idioms)
  have three: "map_of (extract_idioms dataset) p = Some h" if "aligned dataset p = [h, h, h]"
  proof -
    from that have "occurrences dataset p = 3"
      using length_aligned [of dataset p] by simp
    with that show ?thesis by (simp add: iff)
  qed
  have two: "map_of (extract_idioms dataset) p' = None" if "occurrences dataset p' = 2"
  proof (cases "map_of (extract_idioms dataset) p'")
    case None
    then show ?thesis .
  next
    case (Some x)
    then have "3 \<le> occurrences dataset p'" by (simp add: iff)
    with that show ?thesis by simp
  qed
  show ?thesis
    using iff [of p m] length_aligned [of dataset p] occurrences_ngram [of dataset p]
      top three two by blast
qed

text \<open>In \<open>kas_dataset\<close> the phrase \<open>kas chal\<close> is recorded and \<open>bado balo\<close> is not; in
  \<open>long_dataset\<close> the run of four words inside longer sentences is recorded.\<close>

theorem extract_idioms_threshold_witness:
  "aligned kas_dataset ''kas chal'' = [''how are you'', ''how are you'', ''how are you''] \<and>
   occurrences kas_dataset ''bado balo'' = 2 \<and>
   aligned kas_dataset ''bado balo'' = [''very good'', ''very good''] \<and>
   map_of (extract_idioms kas_dataset) ''kas chal'' = Some ''how are you'' \<and>
   map_of (extract_idioms kas_dataset) ''bado balo'' = None \<and>
   extract_idioms kas_dataset =
     [(''kas chal'', ''how are you''), (''chal cha'', ''how are you''),
      (''kas chal cha'', ''how are you'')] \<and>
   occurrences long_dataset ''tum kakh ja rya'' = 3 \<and>
   map_of (extract_idioms long_dataset) ''tum kakh ja rya'' = Some ''where are you going''"
proof -
  have h1: "aligned kas_dataset ''kas chal'' = [''how are you'', ''how are you'', ''how are you'']"
    by code_simp
  have h2: "occurrences kas_dataset ''bado balo'' = 2"
    by code_simp
  have h3: "aligned kas_dataset ''bado balo'' = [''very good'', ''very good'']"
    by code_simp
  have e: "extract_idioms kas_dataset =
     [(''kas chal'', ''how are you''), (''chal cha'', ''how are you''),
      (''kas chal cha'', ''how are you'')]"
    by code_simp
  have l1: "occurrences long_dataset ''tum kakh ja rya'' = 3"
    by code_simp
  have l2: "map_of (extract_idioms long_dataset) ''tum kakh ja rya'' = Some ''where are you going''"
    by code_simp
  from extract_idioms_threshold [of kas_dataset "''kas chal''" "''how are you''"
      "''how are you''" "''bado balo''"] h1 h2 h3 e l1 l2
  show ?thesis by blast
qed

end
